theory Spec2Isabelle
  imports Main "HOL-Library.Mapping" "HOL-Library.AList_Mapping"
begin

section \<open>Pre-processing of the MovieLens tables (\<^verbatim>\<open>pre-processing.py\<close>)\<close>

text \<open>
  The embedding follows \<^verbatim>\<open>src/pre-processing.py\<close>. Text columns are byte strings
  (\<^typ>\<open>string\<close>), the reading under which the source's literals \<^verbatim>\<open>b'|'\<close> and
  \<^verbatim>\<open>b'F'\<close> are ordinary strings. A Python \<^verbatim>\<open>dict\<close> is a \<^typ>\<open>('k, 'v) mapping\<close>.
  A numeric numpy array is the list of its entries; the entries stored by this program are
  zeros, ones and vocabulary indices, so they are kept as \<^typ>\<open>int\<close>. Every exception the
  code can raise is a value of \<open>error\<close>, returned as \<open>Inl\<close>.
\<close>

subsection \<open>Errors\<close>

datatype error =
    KeyError
  | IndexError
  | ValueError
  | AttributeError
  | URLError
  | OSError
  | AssertionError string

definition bind :: "error + 'a \<Rightarrow> ('a \<Rightarrow> error + 'b) \<Rightarrow> error + 'b" where
  "bind r f = (case r of Inl e \<Rightarrow> Inl e | Inr v \<Rightarrow> f v)"

text \<open>\<^verbatim>\<open>Series.map(f)\<close> with a callable: the rows in order, stopping at the first exception.\<close>

fun series_map :: "('a \<Rightarrow> error + 'b) \<Rightarrow> 'a list \<Rightarrow> error + 'b list" where
  "series_map f [] = Inr []"
| "series_map f (x # xs) =
     bind (f x) (\<lambda>y. bind (series_map f xs) (\<lambda>ys. Inr (y # ys)))"

subsection \<open>Strings\<close>

text \<open>\<^verbatim>\<open>s.split(sep)\<close> for a one-character separator: every occurrence splits, empty
  fields are kept, and the empty string gives one empty field.\<close>

fun split_sep :: "char \<Rightarrow> string \<Rightarrow> string list" where
  "split_sep sep [] = [[]]"
| "split_sep sep (c # cs) =
     (if c = sep then [] # split_sep sep cs
      else (case split_sep sep cs of
              [] \<Rightarrow> [[c]]
            | w # ws \<Rightarrow> (c # w) # ws))"

text \<open>The whitespace of a byte string: space, \<^verbatim>\<open>\t \n \v \f \r\<close>.\<close>

definition isspace :: "char \<Rightarrow> bool" where
  "isspace c \<longleftrightarrow> c = CHR '' '' \<or> (9 \<le> (of_char c :: nat) \<and> (of_char c :: nat) \<le> 13)"

text \<open>\<^verbatim>\<open>s.split()\<close>: runs of whitespace separate the words; leading and trailing
  whitespace gives no empty word.\<close>

function split_ws :: "string \<Rightarrow> string list" where
  "split_ws s =
     (let rest = dropWhile isspace s in
      if rest = [] then []
      else takeWhile (\<lambda>c. \<not> isspace c) rest # split_ws (dropWhile (\<lambda>c. \<not> isspace c) rest))"
  by pat_completeness auto
termination
proof (relation "measure length", goal_cases)
  case 1
  show ?case by simp
next
  case (2 s rest)
  have eq: "rest = dropWhile isspace s" and ne: "dropWhile isspace s \<noteq> []"
    using 2 by simp_all
  have hd: "\<not> isspace (hd rest)"
    unfolding eq using ne by (rule hd_dropWhile)
  have "rest \<noteq> []"
    unfolding eq by (rule ne)
  then obtain c cs where rest: "rest = c # cs"
    unfolding neq_Nil_conv by blast
  have "length (dropWhile (\<lambda>c. \<not> isspace c) rest) = length (dropWhile (\<lambda>c. \<not> isspace c) cs)"
    using hd by (simp add: rest)
  also have "\<dots> \<le> length cs"
    by (rule length_dropWhile_le)
  also have "\<dots> < length rest"
    by (simp add: rest)
  also have "\<dots> \<le> length s"
    unfolding eq by (rule length_dropWhile_le)
  finally show ?case by simp
qed

declare split_ws.simps [simp del]

definition isdigit :: "char \<Rightarrow> bool" where
  "isdigit c \<longleftrightarrow> 48 \<le> (of_char c :: nat) \<and> (of_char c :: nat) \<le> 57"

text \<open>
  \<^verbatim>\<open>re.compile(b'^(.*)\((\d+)\)$').match(x)\<close> and its \<^verbatim>\<open>group(1)\<close>. The text ends with
  \<^verbatim>\<open>(\<close>, one or more digits and \<^verbatim>\<open>)\<close>; \<^verbatim>\<open>$\<close> also matches before one final newline;
  \<^verbatim>\<open>.\<close> matches no newline. The digits hold no parenthesis, so the match is unique and
  is found from the end. \<open>None\<close> is the failed match.
\<close>

definition pattern_match_group1 :: "string \<Rightarrow> string option" where
  "pattern_match_group1 x =
     (let body = (if x \<noteq> [] \<and> last x = CHR 0x0A then butlast x else x) in
      case rev body of
        [] \<Rightarrow> None
      | c # r \<Rightarrow>
          if c \<noteq> CHR '')'' then None
          else
            let digits = takeWhile isdigit r; before = dropWhile isdigit r in
            if digits = [] then None
            else (case before of
                    [] \<Rightarrow> None
                  | p # pre \<Rightarrow>
                      if p = CHR ''('' \<and> CHR 0x0A \<notin> set pre then Some (rev pre) else None))"

subsection \<open>Dictionaries and sets\<close>

text \<open>\<^verbatim>\<open>[d[k] for k in ks]\<close>: the first key that is absent raises \<^verbatim>\<open>KeyError\<close>.\<close>

fun dict_getitems :: "('k, 'v) mapping \<Rightarrow> 'k list \<Rightarrow> error + 'v list" where
  "dict_getitems d [] = Inr []"
| "dict_getitems d (k # ks) =
     (case Mapping.lookup d k of
        None \<Rightarrow> Inl KeyError
      | Some v \<Rightarrow> bind (dict_getitems d ks) (\<lambda>vs. Inr (v # vs)))"

text \<open>
  Iterating a Python \<^verbatim>\<open>set\<close> visits each element once, in an order the language does not
  fix. The order is an argument of the model: \<open>iterates S xs\<close> says that \<open>xs\<close> is one
  iteration of the set \<open>S\<close>.
\<close>

definition iterates :: "'a set \<Rightarrow> 'a list \<Rightarrow> bool" where
  "iterates S xs \<longleftrightarrow> distinct xs \<and> set xs = S"

text \<open>\<^verbatim>\<open>{val: ii for ii, val in enumerate(xs, start)}\<close>: a later pair overwrites an earlier
  one with the same key.\<close>

definition dict_enumerate :: "nat \<Rightarrow> 'k list \<Rightarrow> ('k, int) mapping" where
  "dict_enumerate start xs =
     fold (\<lambda>(ii, val) d. Mapping.update val (int ii) d) (List.enumerate start xs) Mapping.empty"

text \<open>\<^verbatim>\<open>s = set(); for val in rows: s.update(val)\<close>.\<close>

definition set_update_all :: "'a list list \<Rightarrow> 'a set" where
  "set_update_all rows = fold (\<lambda>val s. s \<union> set val) rows {}"

subsection \<open>Arrays\<close>

datatype ndarray =
    FloatVec "int list"
  | StrScalar string

definition np_zeros :: "nat \<Rightarrow> int list" where
  "np_zeros n = replicate n 0"

text \<open>An index into an axis of length \<open>n\<close>: \<open>-n \<le> i < n\<close>, a negative index counting from
  the end; anything else raises \<^verbatim>\<open>IndexError\<close>.\<close>

definition np_index :: "nat \<Rightarrow> int \<Rightarrow> nat option" where
  "np_index n i =
     (if 0 \<le> i \<and> i < int n then Some (nat i)
      else if - int n \<le> i \<and> i < 0 then Some (nat (int n + i))
      else None)"

text \<open>\<^verbatim>\<open>a[idx] = v\<close> for a list of integer indices and a scalar \<open>v\<close>.\<close>

fun np_setitems :: "int list \<Rightarrow> int list \<Rightarrow> int \<Rightarrow> error + int list" where
  "np_setitems a [] v = Inr a"
| "np_setitems a (i # idx) v =
     (case np_index (length a) i of
        None \<Rightarrow> Inl IndexError
      | Some j \<Rightarrow> np_setitems (a[j := v]) idx v)"

text \<open>\<^verbatim>\<open>a[:k] = vs\<close>: the slice has \<open>min k (len a)\<close> entries; \<open>vs\<close> has as many, or one
  entry that is broadcast; anything else raises \<^verbatim>\<open>ValueError\<close>.\<close>

definition np_setprefix :: "int list \<Rightarrow> nat \<Rightarrow> int list \<Rightarrow> error + int list" where
  "np_setprefix a k vs =
     (let n = min k (length a) in
      if length vs = n then Inr (vs @ drop n a)
      else if length vs = 1 then Inr (replicate n (hd vs) @ drop n a)
      else Inl ValueError)"

subsection \<open>The encoders\<close>

text \<open>\<^verbatim>\<open>genres_multi_hot(genre_int_map)\<close> returns \<^verbatim>\<open>helper\<close>; the model is the curried function.\<close>

definition genres_multi_hot :: "(string, int) mapping \<Rightarrow> string \<Rightarrow> error + int list" where
  "genres_multi_hot genre_int_map genres =
     bind (dict_getitems genre_int_map (split_sep CHR ''|'' genres)) (\<lambda>genre_int_list.
       let multi_hot = np_zeros (Mapping.size genre_int_map) in
       np_setitems multi_hot genre_int_list 1)"

text \<open>\<^verbatim>\<open>title_encode(word_int_map)\<close> returns \<^verbatim>\<open>helper\<close>. With more than 15 words the source
  returns \<^verbatim>\<open>np.array(title[:15])\<close>, an array holding a prefix of the string \<^verbatim>\<open>title\<close>.\<close>

definition title_encode :: "(string, int) mapping \<Rightarrow> string \<Rightarrow> error + ndarray" where
  "title_encode word_int_map title =
     bind (dict_getitems word_int_map (split_ws title)) (\<lambda>title_words.
       if length title_words > 15 then Inr (StrScalar (take 15 title))
       else
         let title_vector = np_zeros 15 in
         bind (np_setprefix title_vector (length title_words) title_words) (\<lambda>title_vector.
           Inr (FloatVec title_vector)))"

subsection \<open>The tables\<close>

text \<open>
  \<^verbatim>\<open>load_data\<close> reads the three tables with \<^verbatim>\<open>pd.read_table\<close>; the model starts from the
  parsed rows. \<^verbatim>\<open>Series.map(d)\<close> with a dictionary \<open>d\<close> gives the missing value \<^verbatim>\<open>NaN\<close>
  (here \<open>None\<close>) for a value that is no key of \<open>d\<close>; it does not raise.
\<close>

record user_row =
  UserID :: int
  Gender :: string
  Age :: int
  JobID :: int

record user =
  user_cols :: user_row
  GenderIndex :: "int option"
  AgeIndex :: "int option"

record movie_row =
  MovieID :: int
  Title :: string
  Genres :: string

record movie =
  movie_cols :: movie_row
  TitleWithoutYear :: string
  GenresMultiHot :: "int list"
  TitleIndex :: ndarray


definition series_map_dict :: "('k, 'v) mapping \<Rightarrow> 'k list \<Rightarrow> 'v option list" where
  "series_map_dict d col = map (Mapping.lookup d) col"

definition gender_map :: "(string, int) mapping" where
  "gender_map = Mapping.update ''M'' 1 (Mapping.update ''F'' 0 Mapping.empty)"

text \<open>The users block of \<^verbatim>\<open>load_data\<close>. The source enumerates \<^verbatim>\<open>set(users['Age'])\<close>,
  here \<open>age_set users\<close>; \<open>age_iter\<close> is the order in which the enumeration visits
  that set, so the theorems about it assume \<open>iterates (age_set users) age_iter\<close>.\<close>

definition age_set :: "user_row list \<Rightarrow> int set" where
  "age_set users = set (map Age users)"

text \<open>The new columns are attached to the rows by position.\<close>

definition zip_users :: "user_row list \<Rightarrow> int option list \<Rightarrow> int option list \<Rightarrow> user list" where
  "zip_users us gs as =
     map (\<lambda>(u, g, a). \<lparr>user_cols = u, GenderIndex = g, AgeIndex = a\<rparr>) (zip us (zip gs as))"

definition load_users :: "int list \<Rightarrow> user_row list \<Rightarrow> user list \<times> (int, int) mapping" where
  "load_users age_iter users =
     (let gender_index = series_map_dict gender_map (map Gender users);
          age_map = dict_enumerate 0 age_iter;
          age_index = series_map_dict age_map (map Age users)
      in (zip_users users gender_index age_index, age_map))"

text \<open>The movies block of \<^verbatim>\<open>load_data\<close>. A title the pattern does not match makes
  \<^verbatim>\<open>pattern.match(x)\<close> return \<^verbatim>\<open>None\<close>, and \<^verbatim>\<open>.group(1)\<close> raises \<^verbatim>\<open>AttributeError\<close>.
  The source collects \<^verbatim>\<open>genre_set\<close> and \<^verbatim>\<open>word_set\<close> with one \<^verbatim>\<open>update\<close> per row
  (\<open>genre_set\<close> and \<open>word_set\<close> below) and enumerates each; \<open>genre_iter\<close> and
  \<open>word_iter\<close> are the orders in which the two enumerations visit the sets, so the
  theorems assume \<open>iterates (genre_set movies) genre_iter\<close> and
  \<open>iterates (word_set titles) word_iter\<close> for the year-stripped \<open>titles\<close>.\<close>

definition title_without_year :: "string \<Rightarrow> error + string" where
  "title_without_year x =
     (case pattern_match_group1 x of None \<Rightarrow> Inl AttributeError | Some g \<Rightarrow> Inr g)"

definition genre_set :: "movie_row list \<Rightarrow> string set" where
  "genre_set movies = set_update_all (map (\<lambda>m. split_sep CHR ''|'' (Genres m)) movies)"

definition word_set :: "string list \<Rightarrow> string set" where
  "word_set titles = set_update_all (map split_ws titles)"

definition zip_movies ::
  "movie_row list \<Rightarrow> string list \<Rightarrow> int list list \<Rightarrow> ndarray list \<Rightarrow> movie list" where
  "zip_movies ms ts gs is =
     map (\<lambda>(m, t, g, i).
            \<lparr>movie_cols = m, TitleWithoutYear = t, GenresMultiHot = g, TitleIndex = i\<rparr>)
         (zip ms (zip ts (zip gs is)))"

record movies_result =
  movies_table :: "movie list"
  genre_int_map :: "(string, int) mapping"
  word_int_map :: "(string, int) mapping"

definition load_movies :: "string list \<Rightarrow> string list \<Rightarrow> movie_row list \<Rightarrow> error + movies_result"
  where
  "load_movies genre_iter word_iter movies =
     bind (series_map title_without_year (map Title movies)) (\<lambda>titles.
       let genre_int_map = dict_enumerate 0 genre_iter in
       bind (series_map (genres_multi_hot genre_int_map) (map Genres movies)) (\<lambda>multi_hot.
         let word_int_map = dict_enumerate 1 word_iter in
         bind (series_map (title_encode word_int_map) titles) (\<lambda>title_index.
           Inr \<lparr>movies_table = zip_movies movies titles multi_hot title_index,
                genre_int_map = genre_int_map,
                word_int_map = word_int_map\<rparr>)))"

text \<open>\<^verbatim>\<open>load_data\<close>: the users block, then the movies block. The ratings table and the
  merge of the three tables add no encoding and are left out of the result.\<close>

record load_result =
  users_table :: "user list"
  age_map :: "(int, int) mapping"
  movies_part :: movies_result

definition load_data ::
  "int list \<Rightarrow> string list \<Rightarrow> string list \<Rightarrow> user_row list \<Rightarrow> movie_row list
     \<Rightarrow> error + load_result" where
  "load_data age_iter genre_iter word_iter users movies =
     (let (users', age_map') = load_users age_iter users in
      bind (load_movies genre_iter word_iter movies) (\<lambda>r.
        Inr \<lparr>users_table = users', age_map = age_map', movies_part = r\<rparr>))"

subsection \<open>The fetcher\<close>

text \<open>
  \<^verbatim>\<open>download_ml_1m\<close> acts on the file system and the network. The world is a record: the
  directories and files that exist, whether \<^verbatim>\<open>os.makedirs\<close> can create a path, what each
  URL serves (\<open>None\<close>: the retrieval fails), and the log of what was done. The digest
  \<^verbatim>\<open>hashlib.md5(...).hexdigest()\<close> is the argument \<open>md5\<close>. The progress bar changes
  nothing but the terminal and is left out.
\<close>

datatype event =
    Print string
  | Makedirs string
  | Urlretrieve string string
  | Md5 string

record world =
  dirs :: "string set"
  files :: "string \<rightharpoonup> string"
  creatable :: "string \<Rightarrow> bool"
  remote :: "string \<rightharpoonup> string"
  log :: "event list"

definition path_exists :: "world \<Rightarrow> string \<Rightarrow> bool" where
  "path_exists w p \<longleftrightarrow> p \<in> dirs w \<or> files w p \<noteq> None"

definition path_join :: "string \<Rightarrow> string \<Rightarrow> string" where
  "path_join a b = (if a = [] \<or> last a = CHR ''/'' then a @ b else a @ ''/'' @ b)"

definition emit :: "event \<Rightarrow> world \<Rightarrow> world" where
  "emit e w = w\<lparr>log := log w @ [e]\<rparr>"

definition makedirs :: "string \<Rightarrow> world \<Rightarrow> error + world" where
  "makedirs p w =
     (if creatable w p then Inr (emit (Makedirs p) (w\<lparr>dirs := insert p (dirs w)\<rparr>))
      else Inl OSError)"

definition urlretrieve :: "string \<Rightarrow> string \<Rightarrow> world \<Rightarrow> error + world" where
  "urlretrieve url filename w =
     (case remote w url of
        None \<Rightarrow> Inl URLError
      | Some content \<Rightarrow>
          Inr (emit (Urlretrieve url filename) (w\<lparr>files := (files w)(filename \<mapsto> content)\<rparr>)))"

definition url :: string where
  "url = ''http://files.grouplens.org/datasets/movielens/ml-1m.zip''"

definition hash_code :: string where
  "hash_code = ''c4d9eecfca2ab87c1945afe126590906''"

text \<open>\<^verbatim>\<open>open(p, 'rb').read()\<close>.\<close>

definition read_file :: "string \<Rightarrow> world \<Rightarrow> error + string" where
  "read_file p w = (case files w p of None \<Rightarrow> Inl OSError | Some content \<Rightarrow> Inr content)"

text \<open>The result is the exception or the returned path, with the world as it is left.\<close>

definition download_ml_1m ::
  "(string \<Rightarrow> string) \<Rightarrow> string \<Rightarrow> world \<Rightarrow> (error + string) \<times> world" where
  "download_ml_1m md5 save_path w0 =
     (case (if \<not> path_exists w0 save_path then makedirs save_path w0 else Inr w0) of
        Inl e \<Rightarrow> (Inl e, w0)
      | Inr w1 \<Rightarrow>
          let save_pathname = path_join save_path ''ml-1m.zip'' in
          if path_exists w1 save_pathname then
            (Inr save_pathname,
             emit (Print ''skip download ml-1m.zip because the file exists !'') w1)
          else
            (case urlretrieve url save_pathname w1 of
               Inl e \<Rightarrow> (Inl e, w1)
             | Inr w2 \<Rightarrow>
                 (case read_file save_pathname w2 of
                    Inl e \<Rightarrow> (Inl e, w2)
                  | Inr content \<Rightarrow>
                      let w3 = emit (Md5 save_pathname) w2 in
                      if md5 content = hash_code then
                        (Inr save_pathname,
                         emit (Print ''Download ml-1m.zip successfully !'') w3)
                      else
                        (Inl (AssertionError
                           (save_path @ '' file is corrupted. Remove the file and try again.'')),
                         w3))))"

subsection \<open>A small corpus\<close>

text \<open>Three users and two movies, the second with a title of sixteen words, and one
  iteration order for each of the three sets. The concrete instances of the theorems
  below are stated on them.\<close>

definition example_users :: "user_row list" where
  "example_users =
     [\<lparr>UserID = 1, Gender = ''F'', Age = 1, JobID = 10\<rparr>,
      \<lparr>UserID = 2, Gender = ''M'', Age = 56, JobID = 16\<rparr>,
      \<lparr>UserID = 3, Gender = ''M'', Age = 25, JobID = 15\<rparr>]"

definition example_movies :: "movie_row list" where
  "example_movies =
     [\<lparr>MovieID = 1, Title = ''Toy Story (1995)'', Genres = ''Animation|Comedy|Drama''\<rparr>,
      \<lparr>MovieID = 2, Title = ''a b c d e f g h i j k l m n o p (1999)'', Genres = ''Comedy''\<rparr>]"

definition example_titles :: "string list" where
  "example_titles = [''Toy Story '', ''a b c d e f g h i j k l m n o p '']"

definition example_age_iter :: "int list" where
  "example_age_iter = [56, 1, 25]"

definition example_genre_iter :: "string list" where
  "example_genre_iter = [''Drama'', ''Animation'', ''Comedy'']"

definition example_word_iter :: "string list" where
  "example_word_iter =
     [''Story'', ''a'', ''b'', ''c'', ''d'', ''e'', ''f'', ''g'', ''h'', ''Toy'',
      ''i'', ''j'', ''k'', ''l'', ''m'', ''n'', ''o'', ''p'']"

subsection \<open>Two small worlds\<close>

text \<open>In the first the archive is already in the directory \<^verbatim>\<open>./data\<close>; in the second
  the directory is missing and the server delivers the content \<^verbatim>\<open>damaged\<close>. The digest
  used with them accepts the content \<^verbatim>\<open>intact\<close> only.\<close>

definition example_world_present :: world where
  "example_world_present =
     \<lparr>dirs = {''./data''},
      files = [''./data/ml-1m.zip'' \<mapsto> ''whatever''],
      creatable = (\<lambda>p. p \<noteq> []),
      remote = [url \<mapsto> ''damaged''],
      log = []\<rparr>"

definition example_world_absent :: world where
  "example_world_absent =
     \<lparr>dirs = {},
      files = Map.empty,
      creatable = (\<lambda>p. p \<noteq> []),
      remote = [url \<mapsto> ''damaged''],
      log = []\<rparr>"

definition example_md5 :: "string \<Rightarrow> string" where
  "example_md5 content = (if content = ''intact'' then hash_code else ''00000000000000000000000000000000'')"

section \<open>Properties\<close>

subsection \<open>Basic facts about the model\<close>

lemma bind_Inr_iff: "bind r f = Inr y \<longleftrightarrow> (\<exists>v. r = Inr v \<and> f v = Inr y)"
  by (cases r) (simp_all add: bind_def)

lemma bind_Inl_iff: "bind r f = Inl e \<longleftrightarrow> r = Inl e \<or> (\<exists>v. r = Inr v \<and> f v = Inl e)"
  by (cases r) (simp_all add: bind_def)

lemma bind_Inr [simp]: "bind (Inr v) f = f v"
  by (simp add: bind_def)

lemma bind_Inl [simp]: "bind (Inl e) f = Inl e"
  by (simp add: bind_def)

lemma series_map_Inr_iff:
  "series_map f xs = Inr ys \<longleftrightarrow> list_all2 (\<lambda>x y. f x = Inr y) xs ys"
proof (induction xs arbitrary: ys)
  case Nil
  show ?case by auto
next
  case (Cons x xs)
  show ?case
    by (cases ys) (auto simp: bind_Inr_iff Cons.IH)
qed

lemma series_map_Inl:
  "series_map f xs = Inl e \<Longrightarrow> \<exists>x \<in> set xs. f x = Inl e"
  by (induction xs) (auto simp: bind_Inl_iff)

lemma series_map_total:
  "(\<And>x. x \<in> set xs \<Longrightarrow> f x = Inr (g x)) \<Longrightarrow> series_map f xs = Inr (map g xs)"
  by (induction xs) simp_all

lemma keys_fold_enumerate:
  "Mapping.keys
     (fold (\<lambda>(ii, val) d. Mapping.update val (int ii) d) (List.enumerate start xs) d0) =
   Mapping.keys d0 \<union> set xs"
  by (induction xs arbitrary: start d0) auto

lemma keys_dict_enumerate: "Mapping.keys (dict_enumerate start xs) = set xs"
  by (simp add: dict_enumerate_def keys_fold_enumerate)

lemma lookup_fold_enumerate_notin:
  "k \<notin> set xs \<Longrightarrow>
   Mapping.lookup
     (fold (\<lambda>(ii, val) d. Mapping.update val (int ii) d) (List.enumerate start xs) d0) k =
   Mapping.lookup d0 k"
  by (induction xs arbitrary: start d0) auto

lemma lookup_fold_enumerate_nth:
  "distinct xs \<Longrightarrow> i < length xs \<Longrightarrow>
   Mapping.lookup
     (fold (\<lambda>(ii, val) d. Mapping.update val (int ii) d) (List.enumerate start xs) d0) (xs ! i) =
   Some (int (start + i))"
proof (induction xs arbitrary: start d0 i)
  case Nil
  then show ?case by simp
next
  case (Cons x xs)
  show ?case
  proof (cases i)
    case 0
    then show ?thesis
      using Cons.prems by (simp add: lookup_fold_enumerate_notin)
  next
    case (Suc j)
    then show ?thesis
      using Cons.prems Cons.IH [of j "Suc start"] by simp
  qed
qed

lemma lookup_dict_enumerate_nth:
  "distinct xs \<Longrightarrow> i < length xs \<Longrightarrow>
   Mapping.lookup (dict_enumerate start xs) (xs ! i) = Some (int (start + i))"
  by (simp add: dict_enumerate_def lookup_fold_enumerate_nth)

lemma lookup_dict_enumerate_notin:
  "k \<notin> set xs \<Longrightarrow> Mapping.lookup (dict_enumerate start xs) k = None"
  by (simp add: dict_enumerate_def lookup_fold_enumerate_notin)

lemma size_dict_enumerate:
  "distinct xs \<Longrightarrow> Mapping.size (dict_enumerate start xs) = length xs"
  by (simp add: Mapping.size_def keys_dict_enumerate distinct_card)

lemma set_update_all_fold:
  "fold (\<lambda>val s. s \<union> set val) rows S = S \<union> (\<Union>val \<in> set rows. set val)"
  by (induction rows arbitrary: S) auto

lemma set_update_all_eq: "set_update_all rows = (\<Union>val \<in> set rows. set val)"
  by (simp add: set_update_all_def set_update_all_fold)

lemma dict_getitems_Inr:
  "set ks \<subseteq> Mapping.keys d \<Longrightarrow>
   dict_getitems d ks = Inr (map (\<lambda>k. the (Mapping.lookup d k)) ks)"
  by (induction ks) (auto simp: keys_dom_lookup)

lemma dict_getitems_KeyError:
  "\<not> set ks \<subseteq> Mapping.keys d \<Longrightarrow> dict_getitems d ks = Inl KeyError"
proof (induction ks)
  case Nil
  then show ?case by simp
next
  case (Cons k ks)
  show ?case
  proof (cases "Mapping.lookup d k")
    case None
    then show ?thesis by simp
  next
    case (Some v)
    then have "k \<in> Mapping.keys d"
      by (simp add: keys_dom_lookup domI)
    with Cons.prems have "\<not> set ks \<subseteq> Mapping.keys d"
      by simp
    with Cons.IH Some show ?thesis
      by simp
  qed
qed

lemma np_index_less: "np_index n i = Some j \<Longrightarrow> j < n"
  by (auto simp: np_index_def split: if_splits)

lemma np_setitems_Inr:
  "\<forall>i \<in> set idx. np_index (length a) i \<noteq> None \<Longrightarrow>
   \<exists>b. np_setitems a idx v = Inr b \<and> length b = length a \<and>
     (\<forall>j < length a. b ! j = (if \<exists>i \<in> set idx. np_index (length a) i = Some j then v else a ! j))"
proof (induction idx arbitrary: a)
  case Nil
  show ?case by simp
next
  case (Cons i idx)
  from Cons.prems obtain k where k: "np_index (length a) i = Some k"
    by auto
  then have kn: "k < length a"
    by (rule np_index_less)
  have "\<forall>i \<in> set idx. np_index (length (a[k := v])) i \<noteq> None"
    using Cons.prems by simp
  from Cons.IH [OF this] obtain b where
    b: "np_setitems (a[k := v]) idx v = Inr b" "length b = length a"
      "\<forall>j < length a. b ! j =
         (if \<exists>i \<in> set idx. np_index (length a) i = Some j then v else a[k := v] ! j)"
    by auto
  have "\<forall>j < length a. b ! j =
      (if \<exists>i' \<in> set (i # idx). np_index (length a) i' = Some j then v else a ! j)"
    using b(3) k kn by (auto simp: nth_list_update)
  then show ?case
    using b(1,2) k by simp
qed

lemma np_setitems_Inl:
  "np_setitems a idx v = Inl e \<Longrightarrow>
   e = IndexError \<and> (\<exists>i \<in> set idx. np_index (length a) i = None)"
  by (induction a idx v rule: np_setitems.induct) (auto split: option.splits)

subsection \<open>The encoders on any vocabulary\<close>


lemma genres_multi_hot_Inr:
  assumes keys: "set (split_sep CHR ''|'' genres) \<subseteq> Mapping.keys d"
    and range: "\<forall>g \<in> set (split_sep CHR ''|'' genres).
       np_index (Mapping.size d) (the (Mapping.lookup d g)) \<noteq> None"
  shows "\<exists>v. genres_multi_hot d genres = Inr v \<and> length v = Mapping.size d \<and>
    (\<forall>j < Mapping.size d. v ! j =
       (if \<exists>g \<in> set (split_sep CHR ''|'' genres).
             np_index (Mapping.size d) (the (Mapping.lookup d g)) = Some j
        then 1 else 0))"
proof -
  let ?toks = "split_sep CHR ''|'' genres"
  let ?idx = "map (\<lambda>k. the (Mapping.lookup d k)) ?toks"
  let ?z = "np_zeros (Mapping.size d)"
  have len: "length ?z = Mapping.size d"
    by (simp add: np_zeros_def)
  have "\<forall>i \<in> set ?idx. np_index (length ?z) i \<noteq> None"
    using range by (simp add: len)
  from np_setitems_Inr [OF this, of 1] obtain b where
    b: "np_setitems ?z ?idx 1 = Inr b" "length b = length ?z"
       "\<forall>j < length ?z. b ! j =
          (if \<exists>i \<in> set ?idx. np_index (length ?z) i = Some j then 1 else ?z ! j)"
    by blast
  have "genres_multi_hot d genres = Inr b"
    by (simp add: genres_multi_hot_def dict_getitems_Inr [OF keys] b(1))
  moreover have "\<forall>j < Mapping.size d. b ! j =
       (if \<exists>g \<in> set ?toks. np_index (Mapping.size d) (the (Mapping.lookup d g)) = Some j
        then 1 else 0)"
    using b(3) by (simp add: len np_zeros_def)
  ultimately show ?thesis
    using b(2) len by simp
qed

lemma genres_multi_hot_Inl:
  assumes "genres_multi_hot d genres = Inl e"
  shows "(e = KeyError \<and> \<not> set (split_sep CHR ''|'' genres) \<subseteq> Mapping.keys d) \<or>
         (e = IndexError \<and> set (split_sep CHR ''|'' genres) \<subseteq> Mapping.keys d \<and>
            (\<exists>g \<in> set (split_sep CHR ''|'' genres).
               np_index (Mapping.size d) (the (Mapping.lookup d g)) = None))"
proof (cases "set (split_sep CHR ''|'' genres) \<subseteq> Mapping.keys d")
  case True
  then have "np_setitems (np_zeros (Mapping.size d))
      (map (\<lambda>k. the (Mapping.lookup d k)) (split_sep CHR ''|'' genres)) 1 = Inl e"
    using assms by (simp add: genres_multi_hot_def dict_getitems_Inr)
  from np_setitems_Inl [OF this] True show ?thesis
    by (auto simp: np_zeros_def)
next
  case False
  then show ?thesis
    using assms by (simp add: genres_multi_hot_def dict_getitems_KeyError)
qed

lemma np_setprefix_zeros:
  "length vs \<le> n \<Longrightarrow>
   np_setprefix (np_zeros n) (length vs) vs = Inr (vs @ replicate (n - length vs) 0)"
  by (simp add: np_setprefix_def np_zeros_def min_def)

lemma title_encode_eq:
  assumes "set (split_ws title) \<subseteq> Mapping.keys d"
  shows "title_encode d title =
    (if 15 < length (split_ws title) then Inr (StrScalar (take 15 title))
     else Inr (FloatVec (map (\<lambda>w. the (Mapping.lookup d w)) (split_ws title)
                         @ replicate (15 - length (split_ws title)) 0)))"
  using np_setprefix_zeros [of "map (\<lambda>w. the (Mapping.lookup d w)) (split_ws title)" 15]
  by (simp add: title_encode_def dict_getitems_Inr [OF assms])

lemma title_encode_Inl:
  assumes "title_encode d title = Inl e"
  shows "e = KeyError \<and> \<not> set (split_ws title) \<subseteq> Mapping.keys d"
proof (cases "set (split_ws title) \<subseteq> Mapping.keys d")
  case True
  from title_encode_eq [OF True] assms show ?thesis
    by (simp split: if_splits)
next
  case False
  then show ?thesis
    using assms by (simp add: title_encode_def dict_getitems_KeyError)
qed

subsection \<open>Vocabularies built by enumeration\<close>

lemma zip_movies_length:
  "length ts = length ms \<Longrightarrow> length gs = length ms \<Longrightarrow> length is = length ms \<Longrightarrow>
   length (zip_movies ms ts gs is) = length ms"
  by (simp add: zip_movies_def)

lemma zip_movies_nth:
  "length ts = length ms \<Longrightarrow> length gs = length ms \<Longrightarrow> length is = length ms \<Longrightarrow>
   i < length ms \<Longrightarrow>
   zip_movies ms ts gs is ! i =
     \<lparr>movie_cols = ms ! i, TitleWithoutYear = ts ! i, GenresMultiHot = gs ! i,
      TitleIndex = is ! i\<rparr>"
  by (simp add: zip_movies_def)

lemma genre_tokens_in_set:
  "m \<in> set movies \<Longrightarrow> set (split_sep CHR ''|'' (Genres m)) \<subseteq> genre_set movies"
  by (auto simp: genre_set_def set_update_all_eq)

lemma title_words_in_set:
  "t \<in> set titles \<Longrightarrow> set (split_ws t) \<subseteq> word_set titles"
  by (auto simp: word_set_def set_update_all_eq)

lemma np_index_dict_enumerate:
  assumes "distinct xs" and "k \<in> set xs"
  shows "\<exists>i < length xs. xs ! i = k \<and> Mapping.lookup (dict_enumerate 0 xs) k = Some (int i) \<and>
     np_index (Mapping.size (dict_enumerate 0 xs)) (the (Mapping.lookup (dict_enumerate 0 xs) k)) = Some i"
proof -
  from assms(2) obtain i where i: "i < length xs" "xs ! i = k"
    by (auto simp: in_set_conv_nth)
  have "Mapping.lookup (dict_enumerate 0 xs) k = Some (int i)"
    using lookup_dict_enumerate_nth [OF assms(1) i(1), of 0] i(2) by simp
  then show ?thesis
    using i by (auto simp: size_dict_enumerate [OF assms(1)] np_index_def)
qed

text \<open>The multi-hot vector under a vocabulary built by enumeration.\<close>

lemma genres_multi_hot_enumerate:
  assumes d: "distinct xs" and sub: "set (split_sep CHR ''|'' genres) \<subseteq> set xs"
  shows "\<exists>v. genres_multi_hot (dict_enumerate 0 xs) genres = Inr v \<and>
    length v = Mapping.size (dict_enumerate 0 xs) \<and>
    (\<forall>j < length v. v ! j =
       (if \<exists>g \<in> set (split_sep CHR ''|'' genres).
             Mapping.lookup (dict_enumerate 0 xs) g = Some (int j)
        then 1 else 0))"
proof -
  let ?d = "dict_enumerate 0 xs"
  let ?toks = "split_sep CHR ''|'' genres"
  have keys: "set ?toks \<subseteq> Mapping.keys ?d"
    using sub by (simp add: keys_dict_enumerate)
  have idx: "np_index (Mapping.size ?d) (the (Mapping.lookup ?d g)) = Some j \<longleftrightarrow>
      Mapping.lookup ?d g = Some (int j)" if "g \<in> set ?toks" for g j
  proof -
    from that sub have "g \<in> set xs" by auto
    from np_index_dict_enumerate [OF d this] obtain i where
      i: "Mapping.lookup ?d g = Some (int i)"
         "np_index (Mapping.size ?d) (the (Mapping.lookup ?d g)) = Some i"
      by blast
    then show ?thesis by auto
  qed
  have range: "\<forall>g \<in> set ?toks. np_index (Mapping.size ?d) (the (Mapping.lookup ?d g)) \<noteq> None"
  proof
    fix g assume "g \<in> set ?toks"
    with sub have "g \<in> set xs" by auto
    from np_index_dict_enumerate [OF d this] show
      "np_index (Mapping.size ?d) (the (Mapping.lookup ?d g)) \<noteq> None"
      by auto
  qed
  from genres_multi_hot_Inr [OF keys range] obtain v where
    v: "genres_multi_hot ?d genres = Inr v" "length v = Mapping.size ?d"
       "\<forall>j < Mapping.size ?d. v ! j =
          (if \<exists>g \<in> set ?toks. np_index (Mapping.size ?d) (the (Mapping.lookup ?d g)) = Some j
           then 1 else 0)"
    by blast
  have "\<forall>j < length v. v ! j =
       (if \<exists>g \<in> set ?toks. Mapping.lookup ?d g = Some (int j) then 1 else 0)"
    using v(2,3) idx by auto
  with v(1,2) show ?thesis by blast
qed

subsection \<open>The movies block\<close>

lemma series_map_projr:
  assumes "\<And>x. x \<in> set xs \<Longrightarrow> \<exists>y. f x = Inr y"
  shows "series_map f xs = Inr (map (\<lambda>x. projr (f x)) xs)"
proof (rule series_map_total)
  fix x assume "x \<in> set xs"
  from assms [OF this] show "f x = Inr (projr (f x))" by auto
qed

lemma series_map_length: "series_map f xs = Inr ys \<Longrightarrow> length ys = length xs"
  by (simp add: series_map_Inr_iff list_all2_lengthD)

lemma series_map_nth: "series_map f xs = Inr ys \<Longrightarrow> i < length xs \<Longrightarrow> f (xs ! i) = Inr (ys ! i)"
  unfolding series_map_Inr_iff by (drule (1) list_all2_nthD)

lemma title_encode_vocabulary:
  assumes w: "iterates (word_set titles) word_iter" and t: "t \<in> set titles"
  shows "set (split_ws t) \<subseteq> Mapping.keys (dict_enumerate 1 word_iter)"
  using title_words_in_set [OF t] w by (simp add: keys_dict_enumerate iterates_def)

lemma genres_vocabulary:
  assumes g: "iterates (genre_set movies) genre_iter" and m: "m \<in> set movies"
  shows "set (split_sep CHR ''|'' (Genres m)) \<subseteq> Mapping.keys (dict_enumerate 0 genre_iter)"
  using genre_tokens_in_set [OF m] g by (simp add: keys_dict_enumerate iterates_def)

text \<open>The movies block returns once every title matches the pattern, and its columns are
  the encoders applied row by row.\<close>

lemma load_movies_Inr:
  assumes t: "series_map title_without_year (map Title movies) = Inr titles"
    and g: "iterates (genre_set movies) genre_iter"
    and w: "iterates (word_set titles) word_iter"
  shows "\<exists>mh ti.
    load_movies genre_iter word_iter movies =
      Inr \<lparr>movies_table = zip_movies movies titles mh ti,
           genre_int_map = dict_enumerate 0 genre_iter,
           word_int_map = dict_enumerate 1 word_iter\<rparr> \<and>
    series_map (genres_multi_hot (dict_enumerate 0 genre_iter)) (map Genres movies) = Inr mh \<and>
    series_map (title_encode (dict_enumerate 1 word_iter)) titles = Inr ti"
proof -
  let ?gd = "dict_enumerate 0 genre_iter"
  let ?wd = "dict_enumerate 1 word_iter"
  have dg: "distinct genre_iter"
    using g by (simp add: iterates_def)
  have "\<exists>v. genres_multi_hot ?gd x = Inr v" if "x \<in> set (map Genres movies)" for x
  proof -
    from that obtain m where m: "m \<in> set movies" "x = Genres m" by auto
    have "set (split_sep CHR ''|'' x) \<subseteq> set genre_iter"
      using genres_vocabulary [OF g m(1)] m(2) by (simp add: keys_dict_enumerate)
    from genres_multi_hot_enumerate [OF dg this] show ?thesis by blast
  qed
  then have mh: "series_map (genres_multi_hot ?gd) (map Genres movies) =
      Inr (map (\<lambda>x. projr (genres_multi_hot ?gd x)) (map Genres movies))"
    by (rule series_map_projr)
  have "\<exists>a. title_encode ?wd x = Inr a" if "x \<in> set titles" for x
    using title_encode_eq [OF title_encode_vocabulary [OF w that]] by (simp split: if_splits)
  then have ti: "series_map (title_encode ?wd) titles =
      Inr (map (\<lambda>x. projr (title_encode ?wd x)) titles)"
    by (rule series_map_projr)
  have "load_movies genre_iter word_iter movies =
      Inr \<lparr>movies_table = zip_movies movies titles
             (map (\<lambda>x. projr (genres_multi_hot ?gd x)) (map Genres movies))
             (map (\<lambda>x. projr (title_encode ?wd x)) titles),
           genre_int_map = ?gd, word_int_map = ?wd\<rparr>"
    unfolding load_movies_def Let_def t mh ti bind_Inr ..
  with mh ti show ?thesis
    by blast
qed

lemma load_movies_Inl:
  assumes g: "iterates (genre_set movies) genre_iter"
    and w: "\<And>titles. series_map title_without_year (map Title movies) = Inr titles
              \<Longrightarrow> iterates (word_set titles) word_iter"
    and e: "load_movies genre_iter word_iter movies = Inl e"
  shows "e = AttributeError \<and> series_map title_without_year (map Title movies) = Inl e"
proof (cases "series_map title_without_year (map Title movies)")
  case (Inl e')
  then have "e' = e"
    using e by (simp add: load_movies_def)
  moreover from Inl obtain x where "title_without_year x = Inl e'"
    by (auto dest: series_map_Inl)
  then have "e' = AttributeError"
    by (auto simp: title_without_year_def split: option.splits)
  ultimately show ?thesis
    using Inl by simp
next
  case (Inr titles)
  from load_movies_Inr [OF Inr g w [OF Inr]] e show ?thesis
    by auto
qed

lemma load_data_eq:
  "load_data age_iter genre_iter word_iter users movies =
     bind (load_movies genre_iter word_iter movies) (\<lambda>r.
       Inr \<lparr>users_table = fst (load_users age_iter users),
            age_map = snd (load_users age_iter users),
            movies_part = r\<rparr>)"
  by (simp add: load_data_def split: prod.splits)

subsection \<open>Out-of-range indices and the whole load\<close>

lemma np_setitems_IndexError:
  "\<exists>i \<in> set idx. np_index (length a) i = None \<Longrightarrow> np_setitems a idx v = Inl IndexError"
proof (induction idx arbitrary: a)
  case Nil
  then show ?case by simp
next
  case (Cons i idx)
  show ?case
  proof (cases "np_index (length a) i")
    case None
    then show ?thesis by simp
  next
    case (Some k)
    with Cons.prems have "\<exists>i \<in> set idx. np_index (length (a[k := v])) i = None"
      by auto
    from Cons.IH [OF this] Some show ?thesis
      by simp
  qed
qed

lemma genres_multi_hot_IndexError:
  assumes keys: "set (split_sep CHR ''|'' genres) \<subseteq> Mapping.keys d"
    and bad: "\<exists>g \<in> set (split_sep CHR ''|'' genres).
       np_index (Mapping.size d) (the (Mapping.lookup d g)) = None"
  shows "genres_multi_hot d genres = Inl IndexError"
proof -
  have "\<exists>i \<in> set (map (\<lambda>k. the (Mapping.lookup d k)) (split_sep CHR ''|'' genres)).
      np_index (length (np_zeros (Mapping.size d))) i = None"
    using bad by (simp add: np_zeros_def)
  from np_setitems_IndexError [OF this] show ?thesis
    by (simp add: genres_multi_hot_def dict_getitems_Inr [OF keys])
qed

lemma load_data_Inr:
  assumes t: "series_map title_without_year (map Title movies) = Inr titles"
    and g: "iterates (genre_set movies) genre_iter"
    and w: "iterates (word_set titles) word_iter"
  shows "\<exists>mh ti r.
    load_data age_iter genre_iter word_iter users movies = Inr r \<and>
    movies_table (movies_part r) = zip_movies movies titles mh ti \<and>
    genre_int_map (movies_part r) = dict_enumerate 0 genre_iter \<and>
    word_int_map (movies_part r) = dict_enumerate 1 word_iter \<and>
    length titles = length movies \<and> length mh = length movies \<and> length ti = length movies \<and>
    (\<forall>i < length movies.
       genres_multi_hot (dict_enumerate 0 genre_iter) (Genres (movies ! i)) = Inr (mh ! i) \<and>
       title_encode (dict_enumerate 1 word_iter) (titles ! i) = Inr (ti ! i))"
proof -
  from load_movies_Inr [OF t g w] obtain mh ti where
    lm: "load_movies genre_iter word_iter movies =
      Inr \<lparr>movies_table = zip_movies movies titles mh ti,
           genre_int_map = dict_enumerate 0 genre_iter,
           word_int_map = dict_enumerate 1 word_iter\<rparr>"
    and mh: "series_map (genres_multi_hot (dict_enumerate 0 genre_iter)) (map Genres movies) = Inr mh"
    and ti: "series_map (title_encode (dict_enumerate 1 word_iter)) titles = Inr ti"
    by blast
  have lt: "length titles = length movies"
    using series_map_length [OF t] by simp
  have lmh: "length mh = length movies"
    using series_map_length [OF mh] by simp
  have lti: "length ti = length movies"
    using series_map_length [OF ti] lt by simp
  have rows: "genres_multi_hot (dict_enumerate 0 genre_iter) (Genres (movies ! i)) = Inr (mh ! i) \<and>
       title_encode (dict_enumerate 1 word_iter) (titles ! i) = Inr (ti ! i)"
    if "i < length movies" for i
    using series_map_nth [OF mh, of i] series_map_nth [OF ti, of i] that lt by simp
  show ?thesis
    unfolding load_data_eq lm bind_Inr using lt lmh lti rows by (intro exI [of _ mh] exI [of _ ti]) simp
qed

subsection \<open>The users block\<close>

lemma zip_users_length:
  "length gs = length us \<Longrightarrow> length as = length us \<Longrightarrow> length (zip_users us gs as) = length us"
  by (simp add: zip_users_def)

lemma zip_users_nth:
  "length gs = length us \<Longrightarrow> length as = length us \<Longrightarrow> i < length us \<Longrightarrow>
   zip_users us gs as ! i = \<lparr>user_cols = us ! i, GenderIndex = gs ! i, AgeIndex = as ! i\<rparr>"
  by (simp add: zip_users_def)

lemma lookup_gender_map:
  "Mapping.lookup gender_map g =
     (if g = ''F'' then Some 0 else if g = ''M'' then Some 1 else None)"
  by (simp add: gender_map_def lookup_update')

lemma load_users_length: "length (fst (load_users age_iter users)) = length users"
  by (simp add: load_users_def Let_def zip_users_length series_map_dict_def)

lemma load_users_nth:
  "i < length users \<Longrightarrow>
   fst (load_users age_iter users) ! i =
     \<lparr>user_cols = users ! i,
      GenderIndex = Mapping.lookup gender_map (Gender (users ! i)),
      AgeIndex = Mapping.lookup (dict_enumerate 0 age_iter) (Age (users ! i))\<rparr>"
  by (simp add: load_users_def Let_def zip_users_nth series_map_dict_def)

lemma load_users_age_map: "snd (load_users age_iter users) = dict_enumerate 0 age_iter"
  by (simp add: load_users_def Let_def)

subsection \<open>The fetcher on a world\<close>

lemma path_join_neq: "b \<noteq> [] \<Longrightarrow> path_join a b \<noteq> a"
  by (simp add: path_join_def)

text \<open>The three ways through \<^verbatim>\<open>download_ml_1m\<close> once the directory is there.\<close>

lemma download_ml_1m_present:
  assumes dir: "path_exists w0 save_path \<or> creatable w0 save_path"
    and arch: "path_exists w0 (path_join save_path ''ml-1m.zip'')"
  shows "download_ml_1m md5 save_path w0 =
    (Inr (path_join save_path ''ml-1m.zip''),
     w0\<lparr>dirs := (if path_exists w0 save_path then dirs w0 else insert save_path (dirs w0)),
        log := log w0 @ (if path_exists w0 save_path then [] else [Makedirs save_path])
               @ [Print ''skip download ml-1m.zip because the file exists !'']\<rparr>)"
  using dir arch path_join_neq [of "''ml-1m.zip''" save_path]
  by (auto simp: download_ml_1m_def makedirs_def path_exists_def emit_def Let_def)

lemma download_ml_1m_absent:
  assumes dir: "path_exists w0 save_path \<or> creatable w0 save_path"
    and arch: "\<not> path_exists w0 (path_join save_path ''ml-1m.zip'')"
    and served: "remote w0 url = Some content"
  shows "download_ml_1m md5 save_path w0 =
    (if md5 content = hash_code then Inr (path_join save_path ''ml-1m.zip'')
     else Inl (AssertionError
            (save_path @ '' file is corrupted. Remove the file and try again.'')),
     w0\<lparr>dirs := (if path_exists w0 save_path then dirs w0 else insert save_path (dirs w0)),
        files := (files w0)(path_join save_path ''ml-1m.zip'' \<mapsto> content),
        log := log w0 @ (if path_exists w0 save_path then [] else [Makedirs save_path])
               @ [Urlretrieve url (path_join save_path ''ml-1m.zip''),
                  Md5 (path_join save_path ''ml-1m.zip'')]
               @ (if md5 content = hash_code
                  then [Print ''Download ml-1m.zip successfully !''] else [])\<rparr>)"
  using dir arch served path_join_neq [of "''ml-1m.zip''" save_path]
  by (auto simp: download_ml_1m_def makedirs_def path_exists_def emit_def Let_def
      urlretrieve_def read_file_def)

lemma download_ml_1m_unreachable:
  assumes dir: "path_exists w0 save_path \<or> creatable w0 save_path"
    and arch: "\<not> path_exists w0 (path_join save_path ''ml-1m.zip'')"
    and served: "remote w0 url = None"
  shows "fst (download_ml_1m md5 save_path w0) = Inl URLError"
  using dir arch served path_join_neq [of "''ml-1m.zip''" save_path]
  by (auto simp: download_ml_1m_def makedirs_def path_exists_def emit_def Let_def
      urlretrieve_def read_file_def)

section \<open>The claims\<close>

text \<open>
  C1. Let every title of the movies table match the year pattern, \<open>titles\<close> being the
  titles without the year. Then \<^verbatim>\<open>load_data\<close> returns, and for every movie whose
  year-stripped title splits at whitespace into more than 15 words, the function made by
  \<^verbatim>\<open>title_encode\<close> gives the first 15 characters of the title string itself, not
  vocabulary indices; a title of at most 15 words is encoded as the vector of the
  vocabulary indices of its words, followed by zeros up to length 15.
\<close>

theorem title_index_of_long_titles:
  assumes t: "series_map title_without_year (map Title movies) = Inr titles"
    and g: "iterates (genre_set movies) genre_iter"
    and w: "iterates (word_set titles) word_iter"
  shows "\<exists>r. load_data age_iter genre_iter word_iter users movies = Inr r \<and>
    length (movies_table (movies_part r)) = length movies \<and>
    (\<forall>i < length movies.
       TitleWithoutYear (movies_table (movies_part r) ! i) = titles ! i \<and>
       TitleIndex (movies_table (movies_part r) ! i) =
         (if 15 < length (split_ws (titles ! i)) then StrScalar (take 15 (titles ! i))
          else FloatVec
                 (map (\<lambda>w. the (Mapping.lookup (word_int_map (movies_part r)) w))
                      (split_ws (titles ! i))
                  @ replicate (15 - length (split_ws (titles ! i))) 0)))"
proof -
  from load_data_Inr [OF t g w, of age_iter users] obtain mh ti r where
    r: "load_data age_iter genre_iter word_iter users movies = Inr r"
      "movies_table (movies_part r) = zip_movies movies titles mh ti"
      "word_int_map (movies_part r) = dict_enumerate 1 word_iter"
    and len: "length titles = length movies" "length mh = length movies"
      "length ti = length movies"
    and rows: "\<forall>i < length movies.
       genres_multi_hot (dict_enumerate 0 genre_iter) (Genres (movies ! i)) = Inr (mh ! i) \<and>
       title_encode (dict_enumerate 1 word_iter) (titles ! i) = Inr (ti ! i)"
    by blast
  have "TitleWithoutYear (movies_table (movies_part r) ! i) = titles ! i \<and>
       TitleIndex (movies_table (movies_part r) ! i) =
         (if 15 < length (split_ws (titles ! i)) then StrScalar (take 15 (titles ! i))
          else FloatVec
                 (map (\<lambda>w. the (Mapping.lookup (word_int_map (movies_part r)) w))
                      (split_ws (titles ! i))
                  @ replicate (15 - length (split_ws (titles ! i))) 0))"
    if i: "i < length movies" for i
  proof -
    have "titles ! i \<in> set titles"
      using i len(1) by simp
    from title_encode_eq [OF title_encode_vocabulary [OF w this]] rows i
    have "ti ! i =
         (if 15 < length (split_ws (titles ! i)) then StrScalar (take 15 (titles ! i))
          else FloatVec
                 (map (\<lambda>w. the (Mapping.lookup (dict_enumerate 1 word_iter) w))
                      (split_ws (titles ! i))
                  @ replicate (15 - length (split_ws (titles ! i))) 0))"
      by (auto split: if_splits)
    then show ?thesis
      using i len by (simp only: r(2,3) zip_movies_nth movie.simps) 
  qed
  with r(1,2) len show ?thesis
    by (auto simp: zip_movies_length)
qed

text \<open>On the small corpus, the second title has sixteen words and is encoded as the
  fifteen characters \<^verbatim>\<open>a b c d e f g h\<close>.\<close>

theorem title_index_of_long_titles_witness:
  "series_map title_without_year (map Title example_movies) = Inr example_titles \<and>
   iterates (genre_set example_movies) example_genre_iter \<and>
   iterates (word_set example_titles) example_word_iter \<and>
   15 < length (split_ws (example_titles ! 1)) \<and>
   (\<exists>r. load_data example_age_iter example_genre_iter example_word_iter
          example_users example_movies = Inr r \<and>
        TitleIndex (movies_table (movies_part r) ! 1) = StrScalar ''a b c d e f g h'')"
proof -
  have t: "series_map title_without_year (map Title example_movies) = Inr example_titles"
    by code_simp
  have g: "iterates (genre_set example_movies) example_genre_iter"
    by code_simp
  have w: "iterates (word_set example_titles) example_word_iter"
    by code_simp
  have i: "1 < length example_movies"
    by code_simp
  have long: "15 < length (split_ws (example_titles ! 1))"
    by code_simp
  have pre: "take 15 (example_titles ! 1) = ''a b c d e f g h''"
    by code_simp
  from title_index_of_long_titles [OF t g w, of example_age_iter example_users] obtain r where
    "load_data example_age_iter example_genre_iter example_word_iter
       example_users example_movies = Inr r"
    "\<forall>i < length example_movies.
       TitleWithoutYear (movies_table (movies_part r) ! i) = example_titles ! i \<and>
       TitleIndex (movies_table (movies_part r) ! i) =
         (if 15 < length (split_ws (example_titles ! i))
          then StrScalar (take 15 (example_titles ! i))
          else FloatVec
                 (map (\<lambda>w. the (Mapping.lookup (word_int_map (movies_part r)) w))
                      (split_ws (example_titles ! i))
                  @ replicate (15 - length (split_ws (example_titles ! i))) 0))"
    by blast
  with i long pre t g w show ?thesis
    by auto
qed



text \<open>
  C3. The claim is that the gender index, like the age index, follows the enumeration
  order of the values observed in the data. For a users table with one man the observed
  gender set is \<^verbatim>\<open>{M}\<close>; enumerating it gives \<^verbatim>\<open>M\<close> the index 0, and the code gives 1.
\<close>

theorem gender_index_enumeration_counterexample:
  "iterates (set (map Gender [\<lparr>UserID = 1, Gender = ''M'', Age = 25, JobID = 15\<rparr>])) [''M''] \<and>
   Mapping.lookup (dict_enumerate 0 [''M'']) ''M'' = Some 0 \<and>
   map GenderIndex (fst (load_users [25] [\<lparr>UserID = 1, Gender = ''M'', Age = 25, JobID = 15\<rparr>]))
     = [Some 1]"
  by code_simp

text \<open>
  C3, as the code has it. For age, the remapping is derived from the data: \<^verbatim>\<open>age_map\<close>
  enumerates the set of the ages observed, in the order \<open>age_iter\<close> in which the set is
  iterated, from 0; every row's \<open>AgeIndex\<close> is the position of its age in that order,
  and every position below the number of distinct ages is the index of some row. For
  gender, the index is the fixed map \<^verbatim>\<open>{F: 0, M: 1}\<close>, whatever the data hold.
\<close>

theorem age_index_from_data_gender_index_fixed:
  assumes a: "iterates (age_set users) age_iter"
  shows "snd (load_users age_iter users) = dict_enumerate 0 age_iter \<and>
    Mapping.keys (snd (load_users age_iter users)) = age_set users \<and>
    length age_iter = card (age_set users) \<and>
    length (fst (load_users age_iter users)) = length users \<and>
    (\<forall>i < length users.
       (\<exists>k < length age_iter. age_iter ! k = Age (users ! i) \<and>
          AgeIndex (fst (load_users age_iter users) ! i) = Some (int k)) \<and>
       GenderIndex (fst (load_users age_iter users) ! i) =
         (if Gender (users ! i) = ''F'' then Some 0
          else if Gender (users ! i) = ''M'' then Some 1 else None)) \<and>
    (\<forall>k < length age_iter. \<exists>i < length users.
       AgeIndex (fst (load_users age_iter users) ! i) = Some (int k))"
proof -
  have d: "distinct age_iter" and s: "set age_iter = age_set users"
    using a by (simp_all add: iterates_def)
  have idx: "Mapping.lookup (dict_enumerate 0 age_iter) (age_iter ! k) = Some (int k)"
    if "k < length age_iter" for k
    using lookup_dict_enumerate_nth [OF d that, of 0] by simp
  have rows: "\<exists>k < length age_iter. age_iter ! k = Age (users ! i) \<and>
      AgeIndex (fst (load_users age_iter users) ! i) = Some (int k)"
    if i: "i < length users" for i
  proof -
    have "Age (users ! i) \<in> set age_iter"
      using i by (simp add: s age_set_def)
    then obtain k where k: "k < length age_iter" "age_iter ! k = Age (users ! i)"
      by (auto simp: in_set_conv_nth)
    with idx [OF k(1)] show ?thesis
      using i by (auto simp: load_users_nth)
  qed
  have dense: "\<exists>i < length users. AgeIndex (fst (load_users age_iter users) ! i) = Some (int k)"
    if k: "k < length age_iter" for k
  proof -
    have "age_iter ! k \<in> age_set users"
      using k s by (metis nth_mem)
    then obtain i where i: "i < length users" "Age (users ! i) = age_iter ! k"
      by (auto simp: age_set_def in_set_conv_nth)
    with idx [OF k] show ?thesis
      by (auto simp: load_users_nth)
  qed
  have "length age_iter = card (age_set users)"
    using d s by (metis distinct_card)
  then show ?thesis
    using rows dense
    by (simp add: load_users_age_map load_users_length keys_dict_enumerate s
        load_users_nth lookup_gender_map)
qed

text \<open>On the small corpus the ages 1, 56, 25 are iterated as 56, 1, 25.\<close>

theorem age_index_from_data_gender_index_fixed_witness:
  "iterates (age_set example_users) example_age_iter \<and>
   snd (load_users example_age_iter example_users) = dict_enumerate 0 example_age_iter \<and>
   length example_age_iter = card (age_set example_users) \<and>
   map AgeIndex (fst (load_users example_age_iter example_users)) = [Some 1, Some 0, Some 2]"
proof -
  have a: "iterates (age_set example_users) example_age_iter"
    by code_simp
  have run: "map AgeIndex (fst (load_users example_age_iter example_users)) = [Some 1, Some 0, Some 2]"
    by code_simp
  from age_index_from_data_gender_index_fixed [OF a] a run show ?thesis
    by simp
qed

text \<open>
  C4. Let the gender of every row of the users table be \<^verbatim>\<open>F\<close> or \<^verbatim>\<open>M\<close>, the two values
  of the column. Then for every row \<open>GenderIndex\<close> is 0 or 1 and is the fixed map
  \<^verbatim>\<open>{F: 0, M: 1}\<close> applied to the row's gender: 0 for \<^verbatim>\<open>F\<close> and 1 for \<^verbatim>\<open>M\<close>. It does not
  depend on which genders occur in the corpus: two rows with the same gender, in any two
  users tables, get the same index.
\<close>

theorem gender_index_fixed_mapping:
  assumes fm: "\<forall>u \<in> set users. Gender u = ''F'' \<or> Gender u = ''M''"
  shows "length (fst (load_users age_iter users)) = length users \<and>
   (\<forall>i < length users.
      (GenderIndex (fst (load_users age_iter users) ! i) = Some 0 \<or>
       GenderIndex (fst (load_users age_iter users) ! i) = Some 1) \<and>
      GenderIndex (fst (load_users age_iter users) ! i) =
        Mapping.lookup gender_map (Gender (users ! i)) \<and>
      (Gender (users ! i) = ''F'' \<longrightarrow> GenderIndex (fst (load_users age_iter users) ! i) = Some 0) \<and>
      (Gender (users ! i) = ''M'' \<longrightarrow> GenderIndex (fst (load_users age_iter users) ! i) = Some 1) \<and>
      (\<forall>users' age_iter' i'.
         i' < length users' \<and> Gender (users' ! i') = Gender (users ! i) \<longrightarrow>
         GenderIndex (fst (load_users age_iter' users') ! i') =
           GenderIndex (fst (load_users age_iter users) ! i)))"
proof -
  have "Gender (users ! i) = ''F'' \<or> Gender (users ! i) = ''M''" if "i < length users" for i
    using fm that by simp
  then show ?thesis
    by (auto simp: load_users_length load_users_nth lookup_gender_map)
qed

text \<open>On the small corpus, and on the corpus of its two men alone.\<close>

theorem gender_index_fixed_mapping_witness:
  "set (map Gender example_users) \<subseteq> {''F'', ''M''} \<and>
   1 < length example_users \<and> Gender (example_users ! 1) = ''M'' \<and>
   GenderIndex (fst (load_users example_age_iter example_users) ! 1) = Some 1 \<and>
   0 < length example_users \<and> Gender (example_users ! 0) = ''F'' \<and>
   GenderIndex (fst (load_users example_age_iter example_users) ! 0) = Some 0 \<and>
   GenderIndex (fst (load_users [] (tl example_users)) ! 0) = Some 1"
proof -
  have fm: "\<forall>u \<in> set example_users. Gender u = ''F'' \<or> Gender u = ''M''"
    by code_simp
  have sub: "set (map Gender example_users) \<subseteq> {''F'', ''M''}"
    by code_simp
  have i: "1 < length example_users" "0 < length example_users"
    by code_simp+
  have m: "Gender (example_users ! 1) = ''M''"
    by code_simp
  have f: "Gender (example_users ! 0) = ''F''"
    by code_simp
  have o: "0 < length (tl example_users) \<and> Gender (tl example_users ! 0) = Gender (example_users ! 1)"
    by code_simp
  have known: "GenderIndex (fst (load_users example_age_iter example_users) ! 1) = Some 1"
    "GenderIndex (fst (load_users example_age_iter example_users) ! 0) = Some 0"
    "GenderIndex (fst (load_users [] (tl example_users)) ! 0) = Some 1"
    using gender_index_fixed_mapping [OF fm, of example_age_iter] i m f o by metis+
  from sub i m f known show ?thesis
    by simp
qed

text \<open>
  C5. Let every title match the year pattern, so that \<^verbatim>\<open>load_data\<close> returns. For every
  movie, the \<open>GenresMultiHot\<close> vector has as many entries as the genre-to-index map
  has keys; every pipe-split genre token of the movie has an index within the vector;
  and the entry at position \<open>j\<close> is 1 exactly when \<open>j\<close> is the index of one of these
  tokens, and 0 otherwise.
\<close>

theorem genres_multi_hot_column:
  assumes t: "series_map title_without_year (map Title movies) = Inr titles"
    and g: "iterates (genre_set movies) genre_iter"
    and w: "iterates (word_set titles) word_iter"
  shows "\<exists>r. load_data age_iter genre_iter word_iter users movies = Inr r \<and>
    length (movies_table (movies_part r)) = length movies \<and>
    (\<forall>i < length movies.
       movie_cols (movies_table (movies_part r) ! i) = movies ! i \<and>
       length (GenresMultiHot (movies_table (movies_part r) ! i)) =
         Mapping.size (genre_int_map (movies_part r)) \<and>
       (\<forall>g \<in> set (split_sep CHR ''|'' (Genres (movies ! i))).
          \<exists>j < Mapping.size (genre_int_map (movies_part r)).
            Mapping.lookup (genre_int_map (movies_part r)) g = Some (int j)) \<and>
       (\<forall>j < Mapping.size (genre_int_map (movies_part r)).
          GenresMultiHot (movies_table (movies_part r) ! i) ! j =
            (if \<exists>g \<in> set (split_sep CHR ''|'' (Genres (movies ! i))).
                  Mapping.lookup (genre_int_map (movies_part r)) g = Some (int j)
             then 1 else 0)))"
proof -
  let ?gd = "dict_enumerate 0 genre_iter"
  from load_data_Inr [OF t g w, of age_iter users] obtain mh ti r where
    r: "load_data age_iter genre_iter word_iter users movies = Inr r"
      "movies_table (movies_part r) = zip_movies movies titles mh ti"
      "genre_int_map (movies_part r) = ?gd"
    and len: "length titles = length movies" "length mh = length movies"
      "length ti = length movies"
    and rows: "\<forall>i < length movies.
       genres_multi_hot ?gd (Genres (movies ! i)) = Inr (mh ! i) \<and>
       title_encode (dict_enumerate 1 word_iter) (titles ! i) = Inr (ti ! i)"
    by blast
  have dg: "distinct genre_iter"
    using g by (simp add: iterates_def)
  have "movie_cols (movies_table (movies_part r) ! i) = movies ! i \<and>
       length (GenresMultiHot (movies_table (movies_part r) ! i)) = Mapping.size ?gd \<and>
       (\<forall>g \<in> set (split_sep CHR ''|'' (Genres (movies ! i))).
          \<exists>j < Mapping.size ?gd. Mapping.lookup ?gd g = Some (int j)) \<and>
       (\<forall>j < Mapping.size ?gd.
          GenresMultiHot (movies_table (movies_part r) ! i) ! j =
            (if \<exists>g \<in> set (split_sep CHR ''|'' (Genres (movies ! i))).
                  Mapping.lookup ?gd g = Some (int j)
             then 1 else 0))"
    if i: "i < length movies" for i
  proof -
    have sub: "set (split_sep CHR ''|'' (Genres (movies ! i))) \<subseteq> set genre_iter"
      using genres_vocabulary [OF g, of "movies ! i"] i by (simp add: keys_dict_enumerate)
    from genres_multi_hot_enumerate [OF dg sub] rows i have
      v: "length (mh ! i) = Mapping.size ?gd"
         "\<forall>j < length (mh ! i). mh ! i ! j =
            (if \<exists>g \<in> set (split_sep CHR ''|'' (Genres (movies ! i))).
                  Mapping.lookup ?gd g = Some (int j)
             then 1 else 0)"
      by auto
    have "\<exists>j < Mapping.size ?gd. Mapping.lookup ?gd g = Some (int j)"
      if "g \<in> set (split_sep CHR ''|'' (Genres (movies ! i)))" for g
    proof -
      from that sub have "g \<in> set genre_iter" by auto
      from np_index_dict_enumerate [OF dg this] show ?thesis
        by (auto simp: size_dict_enumerate [OF dg])
    qed
    moreover have "movies_table (movies_part r) ! i =
      \<lparr>movie_cols = movies ! i, TitleWithoutYear = titles ! i, GenresMultiHot = mh ! i,
       TitleIndex = ti ! i\<rparr>"
      unfolding r(2) using len i by (simp add: zip_movies_nth)
    ultimately show ?thesis
      using v by simp
  qed
  with r(1,2,3) len show ?thesis
    by (auto simp: zip_movies_length)
qed

text \<open>On the small corpus the two vectors are \<open>[1, 1, 1]\<close> and \<open>[0, 0, 1]\<close>.\<close>

theorem genres_multi_hot_column_witness:
  "series_map title_without_year (map Title example_movies) = Inr example_titles \<and>
   iterates (genre_set example_movies) example_genre_iter \<and>
   iterates (word_set example_titles) example_word_iter \<and>
   (\<exists>r. load_data example_age_iter example_genre_iter example_word_iter
          example_users example_movies = Inr r \<and>
        map GenresMultiHot (movies_table (movies_part r)) = [[1, 1, 1], [0, 0, 1]] \<and>
        length (GenresMultiHot (movies_table (movies_part r) ! 1)) =
          Mapping.size (genre_int_map (movies_part r)))"
proof -
  have t: "series_map title_without_year (map Title example_movies) = Inr example_titles"
    by code_simp
  have g: "iterates (genre_set example_movies) example_genre_iter"
    by code_simp
  have w: "iterates (word_set example_titles) example_word_iter"
    by code_simp
  have i: "1 < length example_movies"
    by code_simp
  have run: "map_sum id (\<lambda>r. map GenresMultiHot (movies_table (movies_part r)))
     (load_data example_age_iter example_genre_iter example_word_iter
        example_users example_movies) = Inr [[1, 1, 1], [0, 0, 1]]"
    by code_simp
  from genres_multi_hot_column [OF t g w, of example_age_iter example_users] obtain r where
    r: "load_data example_age_iter example_genre_iter example_word_iter
       example_users example_movies = Inr r"
    and "\<forall>i < length example_movies.
       length (GenresMultiHot (movies_table (movies_part r) ! i)) =
         Mapping.size (genre_int_map (movies_part r))"
    by blast
  with i run t g w show ?thesis
    by auto
qed

text \<open>
  C8. Let the destination directory exist or be creatable. If the archive already exists
  at the expected path, \<^verbatim>\<open>download_ml_1m\<close> returns that path, leaves every file as it
  was, and logs only the message that the download is skipped: nothing is retrieved and
  nothing is hashed. Otherwise the archive is retrieved and written (a failed retrieval
  ends the run), its digest is computed and compared with \<open>hash_code\<close>; when they are
  equal the path is returned, and when they differ the run ends with an
  \<^verbatim>\<open>AssertionError\<close> whose message says to remove the file and try again.
\<close>

theorem download_ml_1m_skips_or_validates:
  assumes dir: "path_exists w0 save_path \<or> creatable w0 save_path"
  shows
    "(path_exists w0 (path_join save_path ''ml-1m.zip'') \<longrightarrow>
        fst (download_ml_1m md5 save_path w0) = Inr (path_join save_path ''ml-1m.zip'') \<and>
        files (snd (download_ml_1m md5 save_path w0)) = files w0 \<and>
        log (snd (download_ml_1m md5 save_path w0)) =
          log w0 @ (if path_exists w0 save_path then [] else [Makedirs save_path])
          @ [Print ''skip download ml-1m.zip because the file exists !'']) \<and>
     (\<not> path_exists w0 (path_join save_path ''ml-1m.zip'') \<longrightarrow>
        (remote w0 url = None \<longrightarrow> fst (download_ml_1m md5 save_path w0) = Inl URLError) \<and>
        (\<forall>content. remote w0 url = Some content \<longrightarrow>
           files (snd (download_ml_1m md5 save_path w0)) (path_join save_path ''ml-1m.zip'')
             = Some content \<and>
           fst (download_ml_1m md5 save_path w0) =
             (if md5 content = hash_code then Inr (path_join save_path ''ml-1m.zip'')
              else Inl (AssertionError
                     (save_path @ '' file is corrupted. Remove the file and try again.''))) \<and>
           log (snd (download_ml_1m md5 save_path w0)) =
             log w0 @ (if path_exists w0 save_path then [] else [Makedirs save_path])
             @ [Urlretrieve url (path_join save_path ''ml-1m.zip''),
                Md5 (path_join save_path ''ml-1m.zip'')]
             @ (if md5 content = hash_code
                then [Print ''Download ml-1m.zip successfully !''] else [])))"
proof (intro conjI impI allI)
  assume "path_exists w0 (path_join save_path ''ml-1m.zip'')"
  note r = download_ml_1m_present [OF dir this, of md5]
  show "fst (download_ml_1m md5 save_path w0) = Inr (path_join save_path ''ml-1m.zip'')"
    by (simp add: r)
  show "files (snd (download_ml_1m md5 save_path w0)) = files w0"
    by (simp add: r)
  show "log (snd (download_ml_1m md5 save_path w0)) =
          log w0 @ (if path_exists w0 save_path then [] else [Makedirs save_path])
          @ [Print ''skip download ml-1m.zip because the file exists !'']"
    by (simp add: r)
next
  assume "\<not> path_exists w0 (path_join save_path ''ml-1m.zip'')" "remote w0 url = None"
  then show "fst (download_ml_1m md5 save_path w0) = Inl URLError"
    by (rule download_ml_1m_unreachable [OF dir])
next
  fix content
  assume "\<not> path_exists w0 (path_join save_path ''ml-1m.zip'')" "remote w0 url = Some content"
  note r = download_ml_1m_absent [OF dir this, of md5]
  show "files (snd (download_ml_1m md5 save_path w0)) (path_join save_path ''ml-1m.zip'')
      = Some content"
    by (simp add: r)
  show "fst (download_ml_1m md5 save_path w0) =
      (if md5 content = hash_code then Inr (path_join save_path ''ml-1m.zip'')
       else Inl (AssertionError
              (save_path @ '' file is corrupted. Remove the file and try again.'')))"
    by (simp add: r)
  show "log (snd (download_ml_1m md5 save_path w0)) =
      log w0 @ (if path_exists w0 save_path then [] else [Makedirs save_path])
      @ [Urlretrieve url (path_join save_path ''ml-1m.zip''),
         Md5 (path_join save_path ''ml-1m.zip'')]
      @ (if md5 content = hash_code
         then [Print ''Download ml-1m.zip successfully !''] else [])"
    by (simp add: r)
qed

text \<open>On the two small worlds: the archive present, and the archive absent with a
  damaged download.\<close>

theorem download_ml_1m_skips_or_validates_witness:
  "(path_exists example_world_present ''./data'' \<or> creatable example_world_present ''./data'') \<and>
   path_exists example_world_present (path_join ''./data'' ''ml-1m.zip'') \<and>
   fst (download_ml_1m example_md5 ''./data'' example_world_present) = Inr ''./data/ml-1m.zip'' \<and>
   log (snd (download_ml_1m example_md5 ''./data'' example_world_present)) =
     [Print ''skip download ml-1m.zip because the file exists !''] \<and>
   (path_exists example_world_absent ''./data'' \<or> creatable example_world_absent ''./data'') \<and>
   \<not> path_exists example_world_absent (path_join ''./data'' ''ml-1m.zip'') \<and>
   remote example_world_absent url = Some ''damaged'' \<and>
   example_md5 ''damaged'' \<noteq> hash_code \<and>
   fst (download_ml_1m example_md5 ''./data'' example_world_absent) =
     Inl (AssertionError ''./data file is corrupted. Remove the file and try again.'')"
proof -
  have p1: "path_exists example_world_present ''./data'' \<or> creatable example_world_present ''./data''"
    by code_simp
  have p2: "path_exists example_world_present (path_join ''./data'' ''ml-1m.zip'')"
    by code_simp
  have p3: "path_join ''./data'' ''ml-1m.zip'' = ''./data/ml-1m.zip''"
    by code_simp
  have p4: "log example_world_present = []" "path_exists example_world_present ''./data''"
    by code_simp+
  have a1: "path_exists example_world_absent ''./data'' \<or> creatable example_world_absent ''./data''"
    by code_simp
  have a2: "\<not> path_exists example_world_absent (path_join ''./data'' ''ml-1m.zip'')"
    by code_simp
  have a3: "remote example_world_absent url = Some ''damaged''"
    by code_simp
  have a4: "example_md5 ''damaged'' \<noteq> hash_code"
    by code_simp
  from download_ml_1m_skips_or_validates [OF p1, of example_md5]
       download_ml_1m_skips_or_validates [OF a1, of example_md5]
       p1 p2 p3 p4 a1 a2 a3 a4
  show ?thesis
    by simp
qed

text \<open>
  C9. In a run of \<^verbatim>\<open>load_data\<close>, every genre token that the multi-hot encoder looks up is
  a key of \<^verbatim>\<open>genre_int_map\<close> and every word that the title encoder looks up is a key of
  \<^verbatim>\<open>word_int_map\<close>, since each map is built over the whole corpus with the tokenization
  the encoder uses. No encoder call and no run ends in \<^verbatim>\<open>KeyError\<close>: the run returns
  when every title matches the year pattern, and otherwise stops with the
  \<^verbatim>\<open>AttributeError\<close> of the failed match, before any lookup.
\<close>

theorem vocabulary_lookups_never_fail:
  assumes g: "iterates (genre_set movies) genre_iter"
    and w: "\<And>titles. series_map title_without_year (map Title movies) = Inr titles
              \<Longrightarrow> iterates (word_set titles) word_iter"
  shows "(\<forall>m \<in> set movies.
            set (split_sep CHR ''|'' (Genres m)) \<subseteq> Mapping.keys (dict_enumerate 0 genre_iter) \<and>
            genres_multi_hot (dict_enumerate 0 genre_iter) (Genres m) \<noteq> Inl KeyError) \<and>
    (\<forall>titles. series_map title_without_year (map Title movies) = Inr titles \<longrightarrow>
       (\<forall>t \<in> set titles.
          set (split_ws t) \<subseteq> Mapping.keys (dict_enumerate 1 word_iter) \<and>
          title_encode (dict_enumerate 1 word_iter) t \<noteq> Inl KeyError) \<and>
       (\<exists>r. load_data age_iter genre_iter word_iter users movies = Inr r \<and>
            genre_int_map (movies_part r) = dict_enumerate 0 genre_iter \<and>
            word_int_map (movies_part r) = dict_enumerate 1 word_iter)) \<and>
    load_data age_iter genre_iter word_iter users movies \<noteq> Inl KeyError \<and>
    (\<forall>e. load_data age_iter genre_iter word_iter users movies = Inl e \<longrightarrow> e = AttributeError)"
proof -
  have genres: "set (split_sep CHR ''|'' (Genres m)) \<subseteq> Mapping.keys (dict_enumerate 0 genre_iter) \<and>
      genres_multi_hot (dict_enumerate 0 genre_iter) (Genres m) \<noteq> Inl KeyError"
    if m: "m \<in> set movies" for m
  proof -
    have k: "set (split_sep CHR ''|'' (Genres m)) \<subseteq> Mapping.keys (dict_enumerate 0 genre_iter)"
      by (rule genres_vocabulary [OF g m])
    moreover have "genres_multi_hot (dict_enumerate 0 genre_iter) (Genres m) \<noteq> Inl KeyError"
      using genres_multi_hot_Inl [of "dict_enumerate 0 genre_iter" "Genres m" KeyError] k
      by auto
    ultimately show ?thesis
      by simp
  qed
  have words: "(\<forall>t \<in> set titles.
          set (split_ws t) \<subseteq> Mapping.keys (dict_enumerate 1 word_iter) \<and>
          title_encode (dict_enumerate 1 word_iter) t \<noteq> Inl KeyError) \<and>
       (\<exists>r. load_data age_iter genre_iter word_iter users movies = Inr r \<and>
            genre_int_map (movies_part r) = dict_enumerate 0 genre_iter \<and>
            word_int_map (movies_part r) = dict_enumerate 1 word_iter)"
    if t: "series_map title_without_year (map Title movies) = Inr titles" for titles
  proof -
    have "set (split_ws x) \<subseteq> Mapping.keys (dict_enumerate 1 word_iter) \<and>
          title_encode (dict_enumerate 1 word_iter) x \<noteq> Inl KeyError"
      if x: "x \<in> set titles" for x
    proof -
      have k: "set (split_ws x) \<subseteq> Mapping.keys (dict_enumerate 1 word_iter)"
        by (rule title_encode_vocabulary [OF w [OF t] x])
      then show ?thesis
        using title_encode_Inl [of "dict_enumerate 1 word_iter" x KeyError] by auto
    qed
    moreover from load_data_Inr [OF t g w [OF t], of age_iter users]
    have "\<exists>r. load_data age_iter genre_iter word_iter users movies = Inr r \<and>
            genre_int_map (movies_part r) = dict_enumerate 0 genre_iter \<and>
            word_int_map (movies_part r) = dict_enumerate 1 word_iter"
      by blast
    ultimately show ?thesis
      by blast
  qed
  have err: "e = AttributeError"
    if e: "load_data age_iter genre_iter word_iter users movies = Inl e" for e
  proof -
    from e have "load_movies genre_iter word_iter movies = Inl e"
      by (simp add: load_data_eq bind_Inl_iff)
    from load_movies_Inl [OF g w this] show ?thesis
      by simp
  qed
  then have "load_data age_iter genre_iter word_iter users movies \<noteq> Inl KeyError"
    by auto
  with genres words err show ?thesis
    by blast
qed

text \<open>On the small corpus.\<close>

theorem vocabulary_lookups_never_fail_witness:
  "iterates (genre_set example_movies) example_genre_iter \<and>
   series_map title_without_year (map Title example_movies) = Inr example_titles \<and>
   iterates (word_set example_titles) example_word_iter \<and>
   title_encode (dict_enumerate 1 example_word_iter) (example_titles ! 0) \<noteq> Inl KeyError \<and>
   title_encode (dict_enumerate 1 example_word_iter) (example_titles ! 1) \<noteq> Inl KeyError \<and>
   genres_multi_hot (dict_enumerate 0 example_genre_iter) (Genres (example_movies ! 0))
     \<noteq> Inl KeyError \<and>
   genres_multi_hot (dict_enumerate 0 example_genre_iter) (Genres (example_movies ! 1))
     \<noteq> Inl KeyError \<and>
   load_data example_age_iter example_genre_iter example_word_iter example_users example_movies
     \<noteq> Inl KeyError"
proof -
  have t: "series_map title_without_year (map Title example_movies) = Inr example_titles"
    by code_simp
  have g: "iterates (genre_set example_movies) example_genre_iter"
    by code_simp
  have w0: "iterates (word_set example_titles) example_word_iter"
    by code_simp
  have w: "iterates (word_set titles) example_word_iter"
    if "series_map title_without_year (map Title example_movies) = Inr titles" for titles
    using that t w0 by simp
  have rows: "example_titles ! 0 \<in> set example_titles" "example_titles ! 1 \<in> set example_titles"
    "example_movies ! 0 \<in> set example_movies" "example_movies ! 1 \<in> set example_movies"
    by code_simp+
  from vocabulary_lookups_never_fail [OF g w, of example_age_iter example_users] t g w0 rows
  show ?thesis
    by blast
qed

text \<open>
  C10. For every genres string whose pipe-split tokens all lie in the genre-to-index map,
  also when a token occurs more than once, every entry of the vector that the
  \<^verbatim>\<open>genres_multi_hot\<close> encoder returns is exactly 0 or 1: the assignment
  \<^verbatim>\<open>multi_hot[genre_int_list] = 1\<close> stores 1 and never adds. The encoder returns a
  vector exactly when every looked-up index lies within the vector; otherwise the
  assignment raises \<^verbatim>\<open>IndexError\<close>.
\<close>

theorem genres_multi_hot_entries_binary:
  assumes keys: "set (split_sep CHR ''|'' genres) \<subseteq> Mapping.keys d"
  shows "(\<forall>v. genres_multi_hot d genres = Inr v \<longrightarrow> (\<forall>x \<in> set v. x = 0 \<or> x = 1)) \<and>
    (genres_multi_hot d genres = Inl IndexError \<or> (\<exists>v. genres_multi_hot d genres = Inr v)) \<and>
    ((\<exists>v. genres_multi_hot d genres = Inr v) \<longleftrightarrow>
       (\<forall>g \<in> set (split_sep CHR ''|'' genres).
          np_index (Mapping.size d) (the (Mapping.lookup d g)) \<noteq> None))"
proof (cases "\<forall>g \<in> set (split_sep CHR ''|'' genres).
          np_index (Mapping.size d) (the (Mapping.lookup d g)) \<noteq> None")
  case True
  from genres_multi_hot_Inr [OF keys True] obtain v where
    v: "genres_multi_hot d genres = Inr v" "length v = Mapping.size d"
       "\<forall>j < Mapping.size d. v ! j =
          (if \<exists>g \<in> set (split_sep CHR ''|'' genres).
                np_index (Mapping.size d) (the (Mapping.lookup d g)) = Some j
           then 1 else 0)"
    by blast
  have "\<forall>x \<in> set v. x = 0 \<or> x = 1"
  proof
    fix x assume "x \<in> set v"
    then obtain j where "j < length v" "v ! j = x"
      by (auto simp: in_set_conv_nth)
    with v(2,3) show "x = 0 \<or> x = 1"
      by (auto split: if_splits)
  qed
  with v(1) True show ?thesis
    by auto
next
  case False
  then have "\<exists>g \<in> set (split_sep CHR ''|'' genres).
      np_index (Mapping.size d) (the (Mapping.lookup d g)) = None"
    by simp
  then have "genres_multi_hot d genres = Inl IndexError"
    by (rule genres_multi_hot_IndexError [OF keys])
  with False show ?thesis
    by auto
qed

text \<open>A genres string that repeats a token, under a three-genre vocabulary.\<close>

theorem genres_multi_hot_entries_binary_witness:
  "set (split_sep CHR ''|'' ''Comedy|Drama|Comedy'')
     \<subseteq> Mapping.keys (dict_enumerate 0 [''Drama'', ''Action'', ''Comedy'']) \<and>
   genres_multi_hot (dict_enumerate 0 [''Drama'', ''Action'', ''Comedy'']) ''Comedy|Drama|Comedy''
     = Inr [1, 0, 1] \<and>
   set [1, 0, 1 :: int] \<subseteq> {0, 1}"
proof -
  have keys: "set (split_sep CHR ''|'' ''Comedy|Drama|Comedy'')
     \<subseteq> Mapping.keys (dict_enumerate 0 [''Drama'', ''Action'', ''Comedy''])"
    by code_simp
  have run: "genres_multi_hot (dict_enumerate 0 [''Drama'', ''Action'', ''Comedy''])
      ''Comedy|Drama|Comedy'' = Inr [1, 0, 1]"
    by code_simp
  from genres_multi_hot_entries_binary [OF keys] run keys show ?thesis
    by auto
qed

end
